theory Spec2Isabelle
  imports Main "HOL-Library.Word"
begin

section \<open>Go values shared by both packages\<close>

text \<open>
  A Go \<open>error\<close> is an interface value: \<open>nil\<close> is \<open>None\<close>, any other error is
  \<open>Some (Error msg)\<close>. A run-time panic ends the call; every function of the source that
  can panic returns \<open>panic + 'a\<close>, with \<open>Inl\<close> the panic.
\<close>

datatype error = Error string

datatype panic =
    DuplicateBackend        \<comment> \<open>\<open>panic("duplicate backend")\<close>\<close>
  | InterfaceConversion     \<comment> \<open>a failed single-value type assertion \<open>x.(T)\<close>\<close>
  | NilPointerDereference   \<comment> \<open>\<open>*p\<close> with \<open>p == nil\<close>\<close>
  | SliceBoundsOutOfRange   \<comment> \<open>\<open>p[:n]\<close> with \<open>n\<close> out of range\<close>
  | AssignmentToNilMap      \<comment> \<open>\<open>m[k] = v\<close> with \<open>m == nil\<close>\<close>

type_synonym byte = "8 word"

section \<open>Package location: the registry\<close>

text \<open>
  \<open>Factory\<close> is an interface type, so a value of it is either \<open>nil\<close> (\<open>None\<close>) or a
  factory (\<open>Some f\<close>). The field \<open>factories\<close> is a Go map from scheme to such a value. A
  Go map is either \<open>nil\<close> (\<open>None\<close>), as in the zero value \<open>Registry{}\<close> of the exported
  struct, or allocated (\<open>Some m\<close>), as \<open>NewRegistry\<close> makes it; in an allocated map a key
  can be present with the value \<open>nil\<close>. Reading a map, \<open>nil\<close> or not, at a key it does not
  hold gives the zero value of the element type, here \<open>nil\<close>: that is \<open>map_index\<close>.
  Writing to a \<open>nil\<close> map panics: that is \<open>map_assign\<close>. The receiver \<open>r\<close> is a registry,
  not the \<open>nil\<close> pointer.
\<close>

record 'f Registry =
  factories :: "(string \<rightharpoonup> 'f option) option"

definition map_index :: "('k \<rightharpoonup> 'v option) option \<Rightarrow> 'k \<Rightarrow> 'v option" where
  "map_index m k =
     (case m of
        None \<Rightarrow> None
      | Some entries \<Rightarrow> (case entries k of None \<Rightarrow> None | Some v \<Rightarrow> v))"

definition map_assign :: "('k \<rightharpoonup> 'v) option \<Rightarrow> 'k \<Rightarrow> 'v \<Rightarrow> panic + ('k \<rightharpoonup> 'v) option" where
  "map_assign m k v =
     (case m of
        None \<Rightarrow> Inl AssignmentToNilMap
      | Some entries \<Rightarrow> Inr (Some (entries(k \<mapsto> v))))"

definition NewRegistry :: "'f Registry" where
  "NewRegistry = \<lparr>factories = Some Map.empty\<rparr>"

definition Register :: "'f Registry \<Rightarrow> string \<Rightarrow> 'f option \<Rightarrow> panic + 'f Registry" where
  "Register r scheme factory =
     (if map_index (factories r) scheme \<noteq> None then Inl DuplicateBackend
      else (case map_assign (factories r) scheme factory of
              Inl e \<Rightarrow> Inl e
            | Inr m \<Rightarrow> Inr (r\<lparr>factories := m\<rparr>)))"

definition Lookup :: "'f Registry \<Rightarrow> string \<Rightarrow> 'f option" where
  "Lookup r scheme = map_index (factories r) scheme"

section \<open>Package location: the generic factory\<close>

text \<open>
  The config crosses the \<open>Factory\<close> interface as an \<open>interface{}\<close>. Seen from a factory
  with config type \<open>C\<close>, such a value is the \<open>nil\<close> interface, a value of dynamic type
  \<open>*C\<close> (a pointer, which may itself be \<open>nil\<close>: \<open>Pointer None\<close>), or a value of any
  other dynamic type (\<open>Foreign\<close>; a plain \<open>C\<close> is one of these).
\<close>

datatype ('c, 'o) cfg_value = NilInterface | Pointer "'c option" | Foreign 'o

fun dynamic_type_is_pointer :: "('c, 'o) cfg_value \<Rightarrow> bool" where
  "dynamic_type_is_pointer (Pointer p) = True"
| "dynamic_type_is_pointer NilInterface = False"
| "dynamic_type_is_pointer (Foreign v) = False"

text \<open>The type assertion \<open>cfg.(*C)\<close> in its single-value form, and the dereference \<open>*p\<close>.\<close>

fun assert_pointer :: "('c, 'o) cfg_value \<Rightarrow> panic + 'c option" where
  "assert_pointer (Pointer p) = Inr p"
| "assert_pointer NilInterface = Inl InterfaceConversion"
| "assert_pointer (Foreign v) = Inl InterfaceConversion"

fun deref :: "'c option \<Rightarrow> panic + 'c" where
  "deref (Some c) = Inr c"
| "deref None = Inl NilPointerDereference"

text \<open>
  The type parameters are the config \<open>'c\<close>, the context \<open>'x\<close>, the transport \<open>'r\<close>, the
  limiter \<open>'l\<close> and the backend \<open>'t\<close>. \<open>stripPasswordFn\<close> is the one function field the
  source compares with \<open>nil\<close>, so it is an option; the other three are called as they are.
  A Go function returning \<open>(v, err)\<close> returns a pair.
\<close>

record ('c, 'x, 'r, 'l, 't) GenericBackendFactory =
  parseConfigFn :: "string \<Rightarrow> 'c option \<times> error option"
  stripPasswordFn :: "(string \<Rightarrow> string) option"
  createFn :: "'x \<Rightarrow> 'c \<Rightarrow> 'r \<Rightarrow> 'l \<Rightarrow> 't \<times> error option"
  openFn :: "'x \<Rightarrow> 'c \<Rightarrow> 'r \<Rightarrow> 'l \<Rightarrow> 't \<times> error option"

definition ParseConfig ::
  "('c, 'x, 'r, 'l, 't) GenericBackendFactory \<Rightarrow> string \<Rightarrow> ('c, 'o) cfg_value \<times> error option" where
  "ParseConfig f s = (case parseConfigFn f s of (p, err) \<Rightarrow> (Pointer p, err))"

definition StripPassword :: "('c, 'x, 'r, 'l, 't) GenericBackendFactory \<Rightarrow> string \<Rightarrow> string" where
  "StripPassword f s = (case stripPasswordFn f of Some strip \<Rightarrow> strip s | None \<Rightarrow> s)"

definition Create ::
  "('c, 'x, 'r, 'l, 't) GenericBackendFactory \<Rightarrow> 'x \<Rightarrow> ('c, 'o) cfg_value \<Rightarrow> 'r \<Rightarrow> 'l \<Rightarrow>
   panic + 't \<times> error option" where
  "Create f ctx cfg rt lim =
     (case assert_pointer cfg of
        Inl e \<Rightarrow> Inl e
      | Inr p \<Rightarrow> (case deref p of
                   Inl e \<Rightarrow> Inl e
                 | Inr c \<Rightarrow> Inr (createFn f ctx c rt lim)))"

definition Open ::
  "('c, 'x, 'r, 'l, 't) GenericBackendFactory \<Rightarrow> 'x \<Rightarrow> ('c, 'o) cfg_value \<Rightarrow> 'r \<Rightarrow> 'l \<Rightarrow>
   panic + 't \<times> error option" where
  "Open f ctx cfg rt lim =
     (case assert_pointer cfg of
        Inl e \<Rightarrow> Inl e
      | Inr p \<Rightarrow> (case deref p of
                   Inl e \<Rightarrow> Inl e
                 | Inr c \<Rightarrow> Inr (openFn f ctx c rt lim)))"

definition NewHTTPBackendFactory ::
  "(string \<Rightarrow> 'c option \<times> error option) \<Rightarrow> (string \<Rightarrow> string) option \<Rightarrow>
   ('x \<Rightarrow> 'c \<Rightarrow> 'r \<Rightarrow> 't \<times> error option) \<Rightarrow> ('x \<Rightarrow> 'c \<Rightarrow> 'r \<Rightarrow> 't \<times> error option) \<Rightarrow>
   ('c, 'x, 'r, 'l, 't) GenericBackendFactory" where
  "NewHTTPBackendFactory parseConfigFn' stripPasswordFn' createFn' openFn' =
     \<lparr>parseConfigFn = parseConfigFn',
      stripPasswordFn = stripPasswordFn',
      createFn = (\<lambda>ctx cfg rt lim. createFn' ctx cfg rt),
      openFn = (\<lambda>ctx cfg rt lim. openFn' ctx cfg rt)\<rparr>"

definition NewLimitedBackendFactory ::
  "(string \<Rightarrow> 'c option \<times> error option) \<Rightarrow> (string \<Rightarrow> string) option \<Rightarrow>
   ('x \<Rightarrow> 'c \<Rightarrow> 'l \<Rightarrow> 't \<times> error option) \<Rightarrow> ('x \<Rightarrow> 'c \<Rightarrow> 'l \<Rightarrow> 't \<times> error option) \<Rightarrow>
   ('c, 'x, 'r, 'l, 't) GenericBackendFactory" where
  "NewLimitedBackendFactory parseConfigFn' stripPasswordFn' createFn' openFn' =
     \<lparr>parseConfigFn = parseConfigFn',
      stripPasswordFn = stripPasswordFn',
      createFn = (\<lambda>ctx cfg rt lim. createFn' ctx cfg lim),
      openFn = (\<lambda>ctx cfg rt lim. openFn' ctx cfg lim)\<rparr>"

section \<open>Package backend: the watchdog read closer\<close>

text \<open>
  \<open>io.ReadCloser\<close> is an interface; the wrapped stream, the \<open>kick\<close> callback and the
  \<open>close\<close> callback all act on a world \<open>'s\<close> that is passed through the calls in the
  order the source makes them. \<open>Read\<close> of the wrapped stream sees the slice it is given
  and returns \<open>(n, err)\<close>; the bytes it stores go into the caller's buffer through the
  backing array the two slices share, which the model does not follow. \<open>close\<close> may be
  \<open>nil\<close>, which is \<open>None\<close>; \<open>rc\<close> and \<open>kick\<close> are always set where the source builds a read
  closer.
\<close>

record 's ReadCloser =
  io_Read :: "byte list \<Rightarrow> 's \<Rightarrow> (int \<times> error option) \<times> 's"
  io_Close :: "'s \<Rightarrow> error option \<times> 's"

record 's watchdogReadCloser =
  rc :: "'s ReadCloser"
  chunkSize :: int
  kick :: "'s \<Rightarrow> 's"
  close :: "('s \<Rightarrow> 's) option"

definition newWatchdogReadCloser ::
  "'s ReadCloser \<Rightarrow> int \<Rightarrow> ('s \<Rightarrow> 's) \<Rightarrow> ('s \<Rightarrow> 's) option \<Rightarrow> 's watchdogReadCloser" where
  "newWatchdogReadCloser rc' chunkSize' kick' close' =
     \<lparr>rc = rc', chunkSize = chunkSize', kick = kick', close = close'\<rparr>"

text \<open>
  The slice expression \<open>p[:n]\<close>. Go panics when \<open>n\<close> is negative or exceeds the capacity
  of \<open>p\<close>; the capacity is taken to be the length, the least it can be (\<open>Read\<close> evaluates
  the expression only when \<open>n < len(p)\<close>, where the capacity plays no part).
\<close>

definition slice_to :: "'a list \<Rightarrow> int \<Rightarrow> panic + 'a list" where
  "slice_to p n =
     (if n < 0 \<or> int (length p) < n then Inl SliceBoundsOutOfRange else Inr (take (nat n) p))"

definition Read ::
  "'s watchdogReadCloser \<Rightarrow> byte list \<Rightarrow> 's \<Rightarrow> (panic + int \<times> error option) \<times> 's" where
  "Read w p s0 =
     (let s1 = kick w s0 in
      case (if int (length p) > chunkSize w then slice_to p (chunkSize w) else Inr p) of
        Inl e \<Rightarrow> (Inl e, s1)
      | Inr p' \<Rightarrow>
          (case io_Read (rc w) p' s1 of
             ((n, err), s2) \<Rightarrow>
               (let s3 = kick w s2 in (Inr (n, err), s3))))"

definition Close :: "'s watchdogReadCloser \<Rightarrow> 's \<Rightarrow> error option \<times> 's" where
  "Close w s0 =
     (let s1 = (case close w of Some close_action \<Rightarrow> close_action s0 | None \<Rightarrow> s0)
      in io_Close (rc w) s1)"

section \<open>Recording callbacks\<close>

text \<open>
  To speak about which calls a \<open>Read\<close> or a \<open>Close\<close> makes, and in which order, the world
  is a record of the calls made so far together with the state \<open>under\<close> on which the
  callbacks really act. A recording callback appends its event and then does what an
  arbitrary given callback does; the given callbacks are parameters, so a statement about
  the recording ones holds whatever the wrapped stream, the timer reset and the close
  action do.
\<close>

datatype event =
    KickCalled
  | ReadCalled "byte list"
  | CloseActionCalled
  | CloseCalled

record 'u recording =
  calls :: "event list"
  under :: 'u

definition recording_kick :: "('u \<Rightarrow> 'u) \<Rightarrow> 'u recording \<Rightarrow> 'u recording" where
  "recording_kick k w = \<lparr>calls = calls w @ [KickCalled], under = k (under w)\<rparr>"

definition recording_close_action :: "('u \<Rightarrow> 'u) \<Rightarrow> 'u recording \<Rightarrow> 'u recording" where
  "recording_close_action a w = \<lparr>calls = calls w @ [CloseActionCalled], under = a (under w)\<rparr>"

definition recording_rc ::
  "(byte list \<Rightarrow> 'u \<Rightarrow> (int \<times> error option) \<times> 'u) \<Rightarrow> ('u \<Rightarrow> error option \<times> 'u) \<Rightarrow>
   'u recording ReadCloser" where
  "recording_rc rd cl =
     \<lparr>io_Read = (\<lambda>p w. case rd p (under w) of
                   (res, u) \<Rightarrow> (res, \<lparr>calls = calls w @ [ReadCalled p], under = u\<rparr>)),
      io_Close = (\<lambda>w. case cl (under w) of
                   (err, u) \<Rightarrow> (err, \<lparr>calls = calls w @ [CloseCalled], under = u\<rparr>))\<rparr>"

text \<open>
  The contract of \<open>io.Reader\<close>: a read returns \<open>0 \<le> n \<le> len(p)\<close>.
\<close>

definition reader_in_bounds :: "(byte list \<Rightarrow> 'u \<Rightarrow> (int \<times> error option) \<times> 'u) \<Rightarrow> bool" where
  "reader_in_bounds rd = (\<forall>p u. 0 \<le> fst (fst (rd p u)) \<and> fst (fst (rd p u)) \<le> int (length p))"

section \<open>Concrete inputs\<close>

text \<open>
  A stream over a list of pending bytes: a read moves as many bytes as the slice has room
  for and reports end of file once nothing is pending; a close reports an error when the
  stream was already drained.
\<close>

definition list_read :: "byte list \<Rightarrow> byte list \<Rightarrow> (int \<times> error option) \<times> byte list" where
  "list_read p pending =
     (if pending = [] then ((0, Some (Error ''EOF'')), [])
      else ((int (min (length p) (length pending)), None), drop (length p) pending))"

definition list_close :: "byte list \<Rightarrow> error option \<times> byte list" where
  "list_close pending = ((if pending = [] then Some (Error ''closed'') else None), [])"

text \<open>
  A read closer over that stream with chunk size \<open>c\<close>, recording callbacks and a close
  action, and a world in which nothing was called yet and four bytes are pending.
\<close>

definition chunked :: "int \<Rightarrow> byte list recording watchdogReadCloser" where
  "chunked c =
     newWatchdogReadCloser (recording_rc list_read list_close) c (recording_kick id)
       (Some (recording_close_action id))"

definition fresh :: "byte list recording" where
  "fresh = \<lparr>calls = [], under = [10, 20, 30, 40]\<rparr>"

text \<open>The zero value \<open>Registry{}\<close>: its map is \<open>nil\<close>.\<close>

definition zero_Registry :: "nat Registry" where
  "zero_Registry = \<lparr>factories = None\<rparr>"

text \<open>A parser that succeeds on every string, one that returns \<open>(nil, nil)\<close>, and constructors.\<close>

definition length_parser :: "string \<Rightarrow> nat option \<times> error option" where
  "length_parser s = (Some (length s), None)"

definition nil_parser :: "string \<Rightarrow> nat option \<times> error option" where
  "nil_parser s = (None, None)"

definition http_ctor :: "unit \<Rightarrow> nat \<Rightarrow> string \<Rightarrow> (nat \<times> string) \<times> error option" where
  "http_ctor ctx cfg rt = ((cfg, rt), None)"

definition limited_ctor :: "unit \<Rightarrow> nat \<Rightarrow> int \<Rightarrow> (nat \<times> int) \<times> error option" where
  "limited_ctor ctx cfg lim = ((cfg, lim), None)"

definition redact :: "string \<Rightarrow> string" where
  "redact s = takeWhile (\<lambda>c. c \<noteq> CHR '':'') s @ '':***''"

text \<open>
  A transport-based factory with a stripping function, a limiter-based factory without
  one, and a transport-based factory over the parser that returns \<open>(nil, nil)\<close>. The config
  is a \<open>nat\<close>, the context \<open>unit\<close>, the transport a \<open>string\<close> and the limiter an \<open>int\<close>.
\<close>

definition http_factory :: "(nat, unit, string, int, nat \<times> string) GenericBackendFactory" where
  "http_factory = NewHTTPBackendFactory length_parser (Some redact) http_ctor http_ctor"

definition limited_factory :: "(nat, unit, string, int, nat \<times> int) GenericBackendFactory" where
  "limited_factory = NewLimitedBackendFactory length_parser None limited_ctor limited_ctor"

definition nil_factory :: "(nat, unit, string, int, nat \<times> string) GenericBackendFactory" where
  "nil_factory = NewHTTPBackendFactory nil_parser None http_ctor http_ctor"

section \<open>Registry: registration and lookup\<close>

lemma Lookup_NewRegistry: "Lookup NewRegistry scheme = None"
  by (simp add: Lookup_def NewRegistry_def map_index_def)

lemma Lookup_nil_map: "factories r = None \<Longrightarrow> Lookup r scheme = None"
  by (simp add: Lookup_def map_index_def)

lemma Lookup_absent_key:
  "factories r = Some m \<Longrightarrow> m scheme = None \<Longrightarrow> Lookup r scheme = None"
  by (simp add: Lookup_def map_index_def)

lemma Register_fresh:
  "Lookup r scheme = None \<Longrightarrow> factories r = Some m \<Longrightarrow>
   Register r scheme factory = Inr (r\<lparr>factories := Some (m(scheme \<mapsto> factory))\<rparr>)"
  by (simp add: Register_def Lookup_def map_assign_def)

lemma Register_taken:
  "Lookup r scheme = Some g \<Longrightarrow> Register r scheme factory = Inl DuplicateBackend"
  by (simp add: Register_def Lookup_def)

lemma Register_nil_map:
  "factories r = None \<Longrightarrow> Register r scheme factory = Inl AssignmentToNilMap"
  by (simp add: Register_def map_index_def map_assign_def)

text \<open>A \<open>Register\<close> that returned leaves an allocated map behind, holding the factory.\<close>

lemma Register_returned:
  assumes "Register r scheme factory = Inr r'"
  shows "\<exists>m. factories r = Some m \<and> Lookup r scheme = None
           \<and> r' = r\<lparr>factories := Some (m(scheme \<mapsto> factory))\<rparr>"
proof (cases "factories r")
  case None
  with assms show ?thesis
    by (simp add: Register_nil_map)
next
  case (Some m)
  with assms show ?thesis
    by (auto simp: Register_def Lookup_def map_assign_def split: if_splits)
qed

lemma Lookup_stored:
  "Lookup (r\<lparr>factories := Some (m(scheme \<mapsto> factory))\<rparr>) scheme = factory"
  by (simp add: Lookup_def map_index_def)

lemma Lookup_after_Register:
  "Register r scheme factory = Inr r' \<Longrightarrow> Lookup r' scheme = factory"
  by (auto dest!: Register_returned simp: Lookup_stored)

lemma allocated_after_Register:
  "Register r scheme factory = Inr r' \<Longrightarrow> \<exists>m. factories r' = Some m"
  by (auto dest!: Register_returned)

lemma Lookup_after_Register_other:
  "Register r scheme factory = Inr r' \<Longrightarrow> other \<noteq> scheme \<Longrightarrow> Lookup r' other = Lookup r other"
  by (auto dest!: Register_returned simp: Lookup_def map_index_def)

text \<open>
  C9. The duplicate check of \<open>Register\<close> and \<open>Lookup\<close> both read the map entry and compare it
  with \<open>nil\<close>, so a scheme registered with a \<open>nil\<close> factory counts as absent: once
  \<open>Register(scheme, nil)\<close> has returned, \<open>Lookup(scheme)\<close> gives \<open>nil\<close>, exactly what it gives
  in a registry where the scheme was never registered, and a later \<open>Register(scheme, f)\<close>
  does not panic but overwrites the \<open>nil\<close> entry in the map \<open>m\<close> the registry then holds,
  after which \<open>Lookup(scheme)\<close> gives \<open>f\<close>.
\<close>

theorem Register_nil_is_absence:
  assumes "Register r scheme None = Inr r'"
  shows "Lookup r' scheme = None
       \<and> Lookup r' scheme = Lookup (NewRegistry :: 'f Registry) scheme
       \<and> (\<exists>m. factories r' = Some m
              \<and> Register r' scheme (Some (f :: 'f)) =
                  Inr (r'\<lparr>factories := Some (m(scheme \<mapsto> Some f))\<rparr>)
              \<and> Lookup (r'\<lparr>factories := Some (m(scheme \<mapsto> Some f))\<rparr>) scheme = Some f)"
proof -
  have absent: "Lookup r' scheme = None"
    using assms by (rule Lookup_after_Register)
  from assms obtain m where m: "factories r' = Some m"
    using allocated_after_Register by blast
  have again: "Register r' scheme (Some f) =
      Inr (r'\<lparr>factories := Some (m(scheme \<mapsto> Some f))\<rparr>)"
    using absent m by (rule Register_fresh)
  have "Lookup (r'\<lparr>factories := Some (m(scheme \<mapsto> Some f))\<rparr>) scheme = Some f"
    by (rule Lookup_stored)
  with absent m again show ?thesis
    by (simp add: Lookup_NewRegistry)
qed

theorem Register_nil_is_absence_witness:
  "Register (NewRegistry :: nat Registry) ''s3'' None = Inr \<lparr>factories = Some [''s3'' \<mapsto> None]\<rparr>
   \<and> Lookup \<lparr>factories = Some [''s3'' \<mapsto> (None :: nat option)]\<rparr> ''s3'' = None
   \<and> Lookup \<lparr>factories = Some [''s3'' \<mapsto> (None :: nat option)]\<rparr> ''s3'' =
       Lookup (NewRegistry :: nat Registry) ''s3''
   \<and> Register \<lparr>factories = Some [''s3'' \<mapsto> None]\<rparr> ''s3'' (Some (7 :: nat)) =
       Inr \<lparr>factories = Some [''s3'' \<mapsto> Some 7]\<rparr>
   \<and> Lookup \<lparr>factories = Some [''s3'' \<mapsto> Some (7 :: nat)]\<rparr> ''s3'' = Some 7"
proof -
  have first: "Register (NewRegistry :: nat Registry) ''s3'' None =
      Inr \<lparr>factories = Some [''s3'' \<mapsto> None]\<rparr>"
    by (simp add: Register_def NewRegistry_def map_index_def map_assign_def)
  show ?thesis
    using first Register_nil_is_absence [OF first, of 7]
    by (auto simp: Lookup_NewRegistry)
qed

text \<open>
  C7 as amended. \<open>Register\<close> panics with \<open>"duplicate backend"\<close> (it has no error result)
  whenever the scheme's entry holds a factory that is not \<open>nil\<close>, in every registry; so a
  second \<open>Register\<close> for a scheme panics when the first one stored a factory that is not
  \<open>nil\<close>. In a registry whose map is allocated, as \<open>NewRegistry\<close> makes it, a first
  \<open>Register\<close> for a scheme, one whose key the map does not hold, stores the factory and
  does not panic, and \<open>Lookup\<close> then returns that factory. In a registry whose map is \<open>nil\<close>
  every \<open>Register\<close> panics on the write to the map.
\<close>

theorem Register_duplicate_panics:
  "(Register r scheme (Some f) = Inr r' \<longrightarrow> Register r' scheme g = Inl DuplicateBackend)
   \<and> (Lookup r scheme = Some f \<longrightarrow> Register r scheme g = Inl DuplicateBackend)
   \<and> (factories r = Some m \<and> m scheme = None \<longrightarrow>
        Register r scheme g = Inr (r\<lparr>factories := Some (m(scheme \<mapsto> g))\<rparr>)
        \<and> Lookup (r\<lparr>factories := Some (m(scheme \<mapsto> g))\<rparr>) scheme = g)
   \<and> (factories r = None \<longrightarrow> Register r scheme g = Inl AssignmentToNilMap)"
proof (intro conjI impI)
  assume "Register r scheme (Some f) = Inr r'"
  then have "Lookup r' scheme = Some f"
    by (rule Lookup_after_Register)
  then show "Register r' scheme g = Inl DuplicateBackend"
    by (rule Register_taken)
next
  assume "Lookup r scheme = Some f"
  then show "Register r scheme g = Inl DuplicateBackend"
    by (rule Register_taken)
next
  assume fresh_key: "factories r = Some m \<and> m scheme = None"
  then have "Lookup r scheme = None"
    by (simp add: Lookup_absent_key)
  with fresh_key show "Register r scheme g = Inr (r\<lparr>factories := Some (m(scheme \<mapsto> g))\<rparr>)"
    by (simp add: Register_fresh)
next
  assume "factories r = Some m \<and> m scheme = None"
  show "Lookup (r\<lparr>factories := Some (m(scheme \<mapsto> g))\<rparr>) scheme = g"
    by (rule Lookup_stored)
next
  assume "factories r = None"
  then show "Register r scheme g = Inl AssignmentToNilMap"
    by (rule Register_nil_map)
qed

theorem Register_duplicate_panics_witness:
  "factories (NewRegistry :: nat Registry) = Some Map.empty
   \<and> Register (NewRegistry :: nat Registry) ''sftp'' (Some 7) =
       Inr \<lparr>factories = Some [''sftp'' \<mapsto> Some 7]\<rparr>
   \<and> Lookup \<lparr>factories = Some [''sftp'' \<mapsto> Some (7 :: nat)]\<rparr> ''sftp'' = Some 7
   \<and> Register \<lparr>factories = Some [''sftp'' \<mapsto> Some (7 :: nat)]\<rparr> ''sftp'' (Some 8) =
       Inl DuplicateBackend
   \<and> Register \<lparr>factories = Some [''sftp'' \<mapsto> Some (7 :: nat)]\<rparr> ''sftp'' None =
       Inl DuplicateBackend
   \<and> factories zero_Registry = None
   \<and> Register zero_Registry ''sftp'' (Some 7) = Inl AssignmentToNilMap"
proof -
  have allocated: "factories (NewRegistry :: nat Registry) = Some Map.empty"
    by (simp add: NewRegistry_def)
  have first: "Register (NewRegistry :: nat Registry) ''sftp'' (Some 7) =
      Inr \<lparr>factories = Some [''sftp'' \<mapsto> Some 7]\<rparr>"
    using allocated
      Register_duplicate_panics [of NewRegistry "''sftp''" "7 :: nat"
        "\<lparr>factories = Some [''sftp'' \<mapsto> Some 7]\<rparr>" "Some 7" Map.empty]
    by (simp add: NewRegistry_def)
  have found: "Lookup \<lparr>factories = Some [''sftp'' \<mapsto> Some (7 :: nat)]\<rparr> ''sftp'' = Some 7"
    using allocated
      Register_duplicate_panics [of NewRegistry "''sftp''" "7 :: nat"
        "\<lparr>factories = Some [''sftp'' \<mapsto> Some 7]\<rparr>" "Some 7" Map.empty]
    by (simp add: NewRegistry_def)
  have nil_map: "factories zero_Registry = None"
    by (simp add: zero_Registry_def)
  have on_nil_map: "Register zero_Registry ''sftp'' (Some 7) = Inl AssignmentToNilMap"
    using nil_map
      Register_duplicate_panics [of zero_Registry "''sftp''" "7 :: nat"
        "\<lparr>factories = Some [''sftp'' \<mapsto> Some 7]\<rparr>" "Some 7" Map.empty]
    by simp
  show ?thesis
    using allocated first found nil_map on_nil_map
      Register_duplicate_panics [of NewRegistry "''sftp''" "7 :: nat"
        "\<lparr>factories = Some [''sftp'' \<mapsto> Some 7]\<rparr>" "Some 8" Map.empty]
      Register_duplicate_panics [of NewRegistry "''sftp''" "7 :: nat"
        "\<lparr>factories = Some [''sftp'' \<mapsto> Some 7]\<rparr>" None Map.empty]
    by simp
qed

text \<open>
  C7 as stated fails in two ways. When the first registration stored \<open>nil\<close>, the second
  \<open>Register\<close> for the same scheme returns normally and replaces the entry. And on the zero
  value \<open>Registry{}\<close> a first \<open>Register\<close> for a scheme does not store the factory: the write
  to the \<open>nil\<close> map panics.
\<close>

theorem Register_twice_counterexample:
  "Register (NewRegistry :: nat Registry) ''sftp'' None =
     Inr \<lparr>factories = Some [''sftp'' \<mapsto> None]\<rparr>
   \<and> Register \<lparr>factories = Some [''sftp'' \<mapsto> None]\<rparr> ''sftp'' (Some (7 :: nat)) =
       Inr \<lparr>factories = Some [''sftp'' \<mapsto> Some 7]\<rparr>
   \<and> Lookup zero_Registry ''sftp'' = None
   \<and> Register zero_Registry ''sftp'' (Some 7) = Inl AssignmentToNilMap"
  by (simp add: Register_def Lookup_def NewRegistry_def zero_Registry_def map_index_def
      map_assign_def)

section \<open>Generic factory\<close>

lemma createFn_NewHTTPBackendFactory [simp]:
  "createFn (NewHTTPBackendFactory p sp cr op) ctx c rt lim = cr ctx c rt"
  by (simp add: NewHTTPBackendFactory_def)

lemma openFn_NewHTTPBackendFactory [simp]:
  "openFn (NewHTTPBackendFactory p sp cr op) ctx c rt lim = op ctx c rt"
  by (simp add: NewHTTPBackendFactory_def)

lemma createFn_NewLimitedBackendFactory [simp]:
  "createFn (NewLimitedBackendFactory p sp cr op) ctx c rt lim = cr ctx c lim"
  by (simp add: NewLimitedBackendFactory_def)

lemma openFn_NewLimitedBackendFactory [simp]:
  "openFn (NewLimitedBackendFactory p sp cr op) ctx c rt lim = op ctx c lim"
  by (simp add: NewLimitedBackendFactory_def)

lemma parseConfigFn_New [simp]:
  "parseConfigFn (NewHTTPBackendFactory p sp cr op) = p"
  "parseConfigFn (NewLimitedBackendFactory p sp cr' op') = p"
  by (simp_all add: NewHTTPBackendFactory_def NewLimitedBackendFactory_def)

lemma stripPasswordFn_New [simp]:
  "stripPasswordFn (NewHTTPBackendFactory p sp cr op) = sp"
  "stripPasswordFn (NewLimitedBackendFactory p sp cr' op') = sp"
  by (simp_all add: NewHTTPBackendFactory_def NewLimitedBackendFactory_def)

lemma ParseConfig_is_pointer: "fst (ParseConfig f s) = Pointer (fst (parseConfigFn f s))"
  by (simp add: ParseConfig_def split: prod.splits)

lemma ParseConfig_error: "snd (ParseConfig f s) = snd (parseConfigFn f s)"
  by (simp add: ParseConfig_def split: prod.splits)

lemma Create_Pointer:
  "Create f ctx (Pointer (Some c)) rt lim = Inr (createFn f ctx c rt lim)"
  "Create f ctx (Pointer None) rt lim = Inl NilPointerDereference"
  by (simp_all add: Create_def)

lemma Open_Pointer:
  "Open f ctx (Pointer (Some c)) rt lim = Inr (openFn f ctx c rt lim)"
  "Open f ctx (Pointer None) rt lim = Inl NilPointerDereference"
  by (simp_all add: Open_def)

text \<open>
  Whatever \<open>ParseConfig\<close> returns, with or without an error, has dynamic type \<open>*C\<close>, so the
  type assertion in \<open>Create\<close> and \<open>Open\<close> never fails on it.
\<close>

lemma downcast_of_ParseConfig_passes:
  "assert_pointer (fst (ParseConfig f s)) = Inr (fst (parseConfigFn f s))"
  "Create f ctx (fst (ParseConfig f s)) rt lim \<noteq> Inl InterfaceConversion"
  "Open f ctx (fst (ParseConfig f s)) rt lim \<noteq> Inl InterfaceConversion"
  by (cases "fst (parseConfigFn f s)";
      simp add: ParseConfig_is_pointer Create_Pointer Open_Pointer)+

text \<open>
  C5 as amended. For every generic factory, built by either constructor, and every config
  value that its own \<open>ParseConfig\<close> returned with a \<open>nil\<close> error and that is not the \<open>nil\<close>
  pointer: the value is a pointer to a config \<open>c\<close>, the downcast in \<open>Create\<close> and \<open>Open\<close>
  passes, and the call returns what the backend's constructor returns at \<open>c\<close>.
\<close>

theorem Create_Open_reach_constructor:
  fixes cfg :: "('c, 'o) cfg_value"
  assumes "ParseConfig f s = (cfg, None)" and "cfg \<noteq> Pointer None"
  shows "\<exists>c. cfg = Pointer (Some c)
           \<and> assert_pointer cfg = Inr (Some c)
           \<and> Create f ctx cfg rt lim = Inr (createFn f ctx c rt lim)
           \<and> Open f ctx cfg rt lim = Inr (openFn f ctx c rt lim)"
proof -
  from assms(1) have "cfg = Pointer (fst (parseConfigFn f s))"
    by (auto simp: ParseConfig_def split: prod.splits)
  with assms(2) obtain c where c: "cfg = Pointer (Some c)"
    by (cases "fst (parseConfigFn f s)") auto
  show ?thesis
    using c by (simp add: Create_Pointer Open_Pointer)
qed

theorem Create_Open_reach_constructor_witness:
  "ParseConfig http_factory ''b2:bucket'' = (Pointer (Some 9) :: (nat, bool) cfg_value, None)
   \<and> Create http_factory () (Pointer (Some 9) :: (nat, bool) cfg_value) ''transport'' 5
     = Inr ((9, ''transport''), None)
   \<and> ParseConfig limited_factory ''b2:bucket'' = (Pointer (Some 9) :: (nat, bool) cfg_value, None)
   \<and> Open limited_factory () (Pointer (Some 9) :: (nat, bool) cfg_value) ''transport'' 5
     = Inr ((9, 5), None)"
proof -
  have http: "ParseConfig http_factory ''b2:bucket'' =
      (Pointer (Some 9) :: (nat, bool) cfg_value, None)"
    by (simp add: ParseConfig_def http_factory_def length_parser_def)
  have limited: "ParseConfig limited_factory ''b2:bucket'' =
      (Pointer (Some 9) :: (nat, bool) cfg_value, None)"
    by (simp add: ParseConfig_def limited_factory_def length_parser_def)
  show ?thesis
    using http limited
      Create_Open_reach_constructor [OF http, of "()" "''transport''" 5]
      Create_Open_reach_constructor [OF limited, of "()" "''transport''" 5]
    by (simp add: http_factory_def limited_factory_def http_ctor_def limited_ctor_def)
qed

text \<open>
  C5 as stated fails for a parser that returns \<open>(nil, nil)\<close>: \<open>ParseConfig\<close> returns the \<open>nil\<close>
  pointer with a \<open>nil\<close> error, the type assertion passes, and the dereference panics
  before the constructor is called.
\<close>

theorem Create_Open_nil_pointer_counterexample:
  "ParseConfig nil_factory ''b2:bucket'' = (Pointer None :: (nat, bool) cfg_value, None)
   \<and> assert_pointer (Pointer None :: (nat, bool) cfg_value) = Inr None
   \<and> Create nil_factory () (Pointer None :: (nat, bool) cfg_value) ''transport'' 5
     = Inl NilPointerDereference
   \<and> Open nil_factory () (Pointer None :: (nat, bool) cfg_value) ''transport'' 5
     = Inl NilPointerDereference"
  by (simp add: ParseConfig_def nil_factory_def nil_parser_def Create_def Open_def)

text \<open>
  C6. For every generic factory with config type \<open>C\<close>, \<open>Create\<close> and \<open>Open\<close> called with a
  config whose dynamic type is not \<open>*C\<close> (the \<open>nil\<close> interface included) panic on the type
  assertion; they never return a backend or an error.
\<close>

theorem Create_Open_wrong_type_panics:
  assumes "\<not> dynamic_type_is_pointer cfg"
  shows "Create f ctx cfg rt lim = Inl InterfaceConversion
       \<and> Open f ctx cfg rt lim = Inl InterfaceConversion
       \<and> (\<forall>b. Create f ctx cfg rt lim \<noteq> Inr b)
       \<and> (\<forall>b. Open f ctx cfg rt lim \<noteq> Inr b)"
  using assms by (cases cfg) (simp_all add: Create_def Open_def)

theorem Create_Open_wrong_type_panics_witness:
  "\<not> dynamic_type_is_pointer (Foreign (9 :: nat) :: (nat, nat) cfg_value)
   \<and> \<not> dynamic_type_is_pointer (NilInterface :: (nat, nat) cfg_value)
   \<and> Create http_factory () (Foreign (9 :: nat) :: (nat, nat) cfg_value) ''transport'' 5
     = Inl InterfaceConversion
   \<and> Open limited_factory () (NilInterface :: (nat, nat) cfg_value) ''transport'' 5
     = Inl InterfaceConversion"
proof -
  have foreign: "\<not> dynamic_type_is_pointer (Foreign (9 :: nat) :: (nat, nat) cfg_value)"
    by simp
  have nil: "\<not> dynamic_type_is_pointer (NilInterface :: (nat, nat) cfg_value)"
    by simp
  show ?thesis
    using foreign nil
      Create_Open_wrong_type_panics [OF foreign, of http_factory "()" "''transport''" 5]
      Create_Open_wrong_type_panics [OF nil, of limited_factory "()" "''transport''" 5]
    by simp
qed

text \<open>
  C8. For every generic factory and every string \<open>s\<close>, the empty string included,
  \<open>StripPassword\<close> returns \<open>s\<close> when the factory has no stripping function and the
  stripping function applied to \<open>s\<close> otherwise. Both constructors store the stripping
  function they are given (\<open>stripPasswordFn_New\<close>), so a factory built without one is the
  identity on every string and a factory built with one applies it.
\<close>

theorem StripPassword_identity_or_applied:
  "(stripPasswordFn f = None \<longrightarrow> StripPassword f s = s)
   \<and> (stripPasswordFn f = Some strip \<longrightarrow> StripPassword f s = strip s)
   \<and> (stripPasswordFn f = None \<longrightarrow> StripPassword f [] = [])
   \<and> (stripPasswordFn f = Some strip \<longrightarrow> StripPassword f [] = strip [])"
  by (simp add: StripPassword_def)

theorem StripPassword_identity_or_applied_witness:
  "stripPasswordFn http_factory = Some redact
   \<and> StripPassword http_factory ''rest:secret'' = ''rest:***''
   \<and> StripPassword http_factory [] = '':***''
   \<and> stripPasswordFn limited_factory = None
   \<and> StripPassword limited_factory ''rest:secret'' = ''rest:secret''
   \<and> StripPassword limited_factory [] = []"
proof -
  have supplied: "stripPasswordFn http_factory = Some redact"
    by (simp add: http_factory_def)
  have missing: "stripPasswordFn limited_factory = None"
    by (simp add: limited_factory_def)
  show ?thesis
    using supplied missing
      StripPassword_identity_or_applied [of http_factory "''rest:secret''" redact]
      StripPassword_identity_or_applied [of limited_factory "''rest:secret''" redact]
    by (simp add: redact_def)
qed

section \<open>Watchdog read closer\<close>

lemma slice_to_in_bounds:
  "0 \<le> n \<Longrightarrow> n \<le> int (length p) \<Longrightarrow> slice_to p n = Inr (take (nat n) p)"
  by (simp add: slice_to_def)

lemma slice_to_negative: "n < 0 \<Longrightarrow> slice_to p n = Inl SliceBoundsOutOfRange"
  by (simp add: slice_to_def)

text \<open>
  With a chunk size that is not negative, the slice handed to the wrapped stream is
  \<open>take (nat (chunkSize w)) p\<close> on both branches of the length test.
\<close>

lemma Read_in_range:
  assumes "0 \<le> chunkSize w"
  shows "Read w p s =
           (case io_Read (rc w) (take (nat (chunkSize w)) p) (kick w s) of
              ((n, err), s2) \<Rightarrow> (Inr (n, err), kick w s2))"
proof (cases "int (length p) > chunkSize w")
  case True
  with assms have "slice_to p (chunkSize w) = Inr (take (nat (chunkSize w)) p)"
    by (simp add: slice_to_in_bounds)
  with True show ?thesis
    by (simp add: Read_def Let_def)
next
  case False
  then have "take (nat (chunkSize w)) p = p"
    by simp
  with False show ?thesis
    by (simp add: Read_def Let_def)
qed

lemma Read_negative:
  assumes "chunkSize w < 0"
  shows "Read w p s = (Inl SliceBoundsOutOfRange, kick w s)"
proof -
  from assms have "int (length p) > chunkSize w"
    by simp
  with assms show ?thesis
    by (simp add: Read_def Let_def slice_to_negative)
qed

lemma Read_recording_in_range:
  assumes "0 \<le> c"
  shows "Read (newWatchdogReadCloser (recording_rc rd cl) c (recording_kick k) close_action) p w =
           (Inr (fst (rd (take (nat c) p) (k (under w)))),
            \<lparr>calls = calls w @ [KickCalled, ReadCalled (take (nat c) p), KickCalled],
             under = k (snd (rd (take (nat c) p) (k (under w))))\<rparr>)"
proof -
  have "0 \<le> chunkSize (newWatchdogReadCloser (recording_rc rd cl) c (recording_kick k) close_action)"
    using assms by (simp add: newWatchdogReadCloser_def)
  then show ?thesis
    by (simp add: Read_in_range newWatchdogReadCloser_def recording_rc_def recording_kick_def
        split: prod.splits)
qed

lemma Read_recording_negative:
  assumes "c < 0"
  shows "Read (newWatchdogReadCloser (recording_rc rd cl) c (recording_kick k) close_action) p w =
           (Inl SliceBoundsOutOfRange,
            \<lparr>calls = calls w @ [KickCalled], under = k (under w)\<rparr>)"
proof -
  have "chunkSize (newWatchdogReadCloser (recording_rc rd cl) c (recording_kick k) close_action) < 0"
    using assms by (simp add: newWatchdogReadCloser_def)
  then show ?thesis
    by (simp add: Read_negative newWatchdogReadCloser_def recording_kick_def)
qed

lemma reader_in_bounds_list_read: "reader_in_bounds list_read"
  by (simp add: reader_in_bounds_def list_read_def)

text \<open>
  C3 as amended. For every call to \<open>Read\<close> with buffer \<open>p\<close> on a read closer whose
  \<open>chunkSize\<close> is not negative: the calls made are, in this order, one \<open>kick\<close>, one read of
  the wrapped stream, one \<open>kick\<close>; the wrapped stream is given the first \<open>chunkSize\<close> bytes
  of \<open>p\<close> (all of \<open>p\<close> when it is no longer than that), so at most \<open>chunkSize\<close> bytes; and
  the \<open>(n, err)\<close> of that read, made in the state the first \<open>kick\<close> left, is returned as it is.
\<close>

theorem Read_kicks_around_capped_read:
  assumes "0 \<le> c"
  shows "Read (newWatchdogReadCloser (recording_rc rd cl) c (recording_kick k) close_action) p w =
           (Inr (fst (rd (take (nat c) p) (k (under w)))),
            \<lparr>calls = calls w @ [KickCalled, ReadCalled (take (nat c) p), KickCalled],
             under = k (snd (rd (take (nat c) p) (k (under w))))\<rparr>)
       \<and> int (length (take (nat c) p)) \<le> c
       \<and> take (nat c) p @ drop (nat c) p = p"
  using assms by (simp add: Read_recording_in_range)

theorem Read_kicks_around_capped_read_witness:
  "(0 :: int) \<le> 2
   \<and> Read (chunked 2) [1, 2, 3] fresh =
       (Inr (2, None),
        \<lparr>calls = [KickCalled, ReadCalled [1, 2], KickCalled], under = [30, 40]\<rparr>)"
proof -
  have nonneg: "(0 :: int) \<le> 2"
    by simp
  show ?thesis
    using nonneg
      Read_kicks_around_capped_read [OF nonneg, of list_read list_close id
        "Some (recording_close_action id)" "[1, 2, 3]" fresh]
    by (simp add: chunked_def fresh_def list_read_def)
qed

text \<open>
  C3 as stated fails for a negative \<open>chunkSize\<close>: the first \<open>kick\<close> is made, the slice
  expression panics, and neither the read of the wrapped stream nor the second \<open>kick\<close>
  happens.
\<close>

theorem Read_negative_chunkSize_counterexample:
  "Read (chunked (- 1)) [1, 2, 3] fresh =
     (Inl SliceBoundsOutOfRange, \<lparr>calls = [KickCalled], under = [10, 20, 30, 40]\<rparr>)"
  by (simp add: chunked_def fresh_def Read_recording_negative)

lemma Close_recording_action:
  "Close (newWatchdogReadCloser (recording_rc rd cl) c k (Some (recording_close_action a))) w =
     (fst (cl (a (under w))),
      \<lparr>calls = calls w @ [CloseActionCalled, CloseCalled], under = snd (cl (a (under w)))\<rparr>)"
  by (simp add: Close_def newWatchdogReadCloser_def recording_rc_def recording_close_action_def
      split: prod.splits)

lemma Close_recording_nil:
  "Close (newWatchdogReadCloser (recording_rc rd cl) c k None) w =
     (fst (cl (under w)), \<lparr>calls = calls w @ [CloseCalled], under = snd (cl (under w))\<rparr>)"
  by (simp add: Close_def newWatchdogReadCloser_def recording_rc_def split: prod.splits)

text \<open>
  Iterating a step that appends the same calls and acts on the state underneath.
\<close>

lemma concat_replicate_snoc: "concat (replicate n xs) @ xs = xs @ concat (replicate n xs)"
  by (induction n) simp_all

lemma funpow_recording:
  fixes f :: "'u recording \<Rightarrow> 'u recording" and g :: "'u \<Rightarrow> 'u"
  assumes step: "\<And>v. f v = \<lparr>calls = calls v @ xs, under = g (under v)\<rparr>"
  shows "(f ^^ n) w = \<lparr>calls = calls w @ concat (replicate n xs), under = (g ^^ n) (under w)\<rparr>"
proof (induction n)
  case 0
  show ?case by simp
next
  case (Suc n)
  have "(f ^^ Suc n) w = f ((f ^^ n) w)"
    by simp
  also have "\<dots> = \<lparr>calls = calls ((f ^^ n) w) @ xs, under = g (under ((f ^^ n) w))\<rparr>"
    by (rule step)
  also have "\<dots> = \<lparr>calls = calls w @ concat (replicate (Suc n) xs),
      under = (g ^^ Suc n) (under w)\<rparr>"
    by (simp add: Suc.IH concat_replicate_snoc)
  finally show ?case .
qed

text \<open>
  Closing \<open>n\<close> times in a row: every one of the \<open>n\<close> calls runs the close action and then
  closes the wrapped stream again.
\<close>

lemma Close_repeated_action:
  "((\<lambda>v. snd (Close (newWatchdogReadCloser (recording_rc rd cl) c k
        (Some (recording_close_action a))) v)) ^^ n) w =
     \<lparr>calls = calls w @ concat (replicate n [CloseActionCalled, CloseCalled]),
      under = ((\<lambda>u. snd (cl (a u))) ^^ n) (under w)\<rparr>"
  by (rule funpow_recording) (simp add: Close_recording_action)

lemma Close_repeated_nil:
  "((\<lambda>v. snd (Close (newWatchdogReadCloser (recording_rc rd cl) c k None) v)) ^^ n) w =
     \<lparr>calls = calls w @ concat (replicate n [CloseCalled]),
      under = ((\<lambda>u. snd (cl u)) ^^ n) (under w)\<rparr>"
  by (rule funpow_recording) (simp add: Close_recording_nil)

text \<open>
  C4. For every call to \<open>Close\<close>, in whatever state and after however many earlier calls:
  when a close action was supplied it is called first and the wrapped stream's \<open>Close\<close>
  after it; when the close action is \<open>nil\<close> only the wrapped stream's \<open>Close\<close> is called;
  in both cases the result of the wrapped stream's \<open>Close\<close> is returned. \<open>n\<close> calls in a
  row make these calls \<open>n\<close> times over: nothing is remembered between calls.
\<close>

theorem Close_runs_action_then_forwards:
  "Close (newWatchdogReadCloser (recording_rc rd cl) c k (Some (recording_close_action a))) w =
     (fst (cl (a (under w))),
      \<lparr>calls = calls w @ [CloseActionCalled, CloseCalled], under = snd (cl (a (under w)))\<rparr>)
   \<and> Close (newWatchdogReadCloser (recording_rc rd cl) c k None) w =
     (fst (cl (under w)), \<lparr>calls = calls w @ [CloseCalled], under = snd (cl (under w))\<rparr>)
   \<and> ((\<lambda>v. snd (Close (newWatchdogReadCloser (recording_rc rd cl) c k
          (Some (recording_close_action a))) v)) ^^ n) w =
     \<lparr>calls = calls w @ concat (replicate n [CloseActionCalled, CloseCalled]),
      under = ((\<lambda>u. snd (cl (a u))) ^^ n) (under w)\<rparr>
   \<and> ((\<lambda>v. snd (Close (newWatchdogReadCloser (recording_rc rd cl) c k None) v)) ^^ n) w =
     \<lparr>calls = calls w @ concat (replicate n [CloseCalled]),
      under = ((\<lambda>u. snd (cl u)) ^^ n) (under w)\<rparr>"
proof (intro conjI)
  show "Close (newWatchdogReadCloser (recording_rc rd cl) c k (Some (recording_close_action a))) w =
     (fst (cl (a (under w))),
      \<lparr>calls = calls w @ [CloseActionCalled, CloseCalled], under = snd (cl (a (under w)))\<rparr>)"
    by (rule Close_recording_action)
  show "Close (newWatchdogReadCloser (recording_rc rd cl) c k None) w =
     (fst (cl (under w)), \<lparr>calls = calls w @ [CloseCalled], under = snd (cl (under w))\<rparr>)"
    by (rule Close_recording_nil)
  show "((\<lambda>v. snd (Close (newWatchdogReadCloser (recording_rc rd cl) c k
          (Some (recording_close_action a))) v)) ^^ n) w =
     \<lparr>calls = calls w @ concat (replicate n [CloseActionCalled, CloseCalled]),
      under = ((\<lambda>u. snd (cl (a u))) ^^ n) (under w)\<rparr>"
    by (rule Close_repeated_action)
  show "((\<lambda>v. snd (Close (newWatchdogReadCloser (recording_rc rd cl) c k None) v)) ^^ n) w =
     \<lparr>calls = calls w @ concat (replicate n [CloseCalled]),
      under = ((\<lambda>u. snd (cl u)) ^^ n) (under w)\<rparr>"
    by (rule Close_repeated_nil)
qed

text \<open>
  On the stream over a list: the first \<open>Close\<close> returns \<open>nil\<close>, the second one the error of
  closing a drained stream, and both run the close action and reach the wrapped stream.
\<close>

lemma Close_twice_example:
  "Close (chunked 2) fresh =
     (None, \<lparr>calls = [CloseActionCalled, CloseCalled], under = []\<rparr>)
   \<and> Close (chunked 2) (snd (Close (chunked 2) fresh)) =
     (Some (Error ''closed''),
      \<lparr>calls = [CloseActionCalled, CloseCalled, CloseActionCalled, CloseCalled], under = []\<rparr>)"
  by (simp add: chunked_def fresh_def Close_recording_action list_close_def)

lemma reader_in_bounds_empty:
  assumes "reader_in_bounds rd"
  shows "fst (fst (rd [] u)) = 0"
proof -
  from assms have "0 \<le> fst (fst (rd [] u)) \<and> fst (fst (rd [] u)) \<le> int (length ([] :: byte list))"
    unfolding reader_in_bounds_def by blast
  then show ?thesis
    by simp
qed

text \<open>
  C10. The slice expression \<open>p[:chunkSize]\<close> of \<open>Read\<close> is evaluated only when
  \<open>len(p) > chunkSize\<close>. For every \<open>chunkSize \<ge> 0\<close> it is then in bounds and \<open>Read\<close> does
  not panic. With \<open>chunkSize = 0\<close> the wrapped stream is read with an empty slice on every
  call, so a stream that keeps to the contract of \<open>io.Reader\<close> reports \<open>n = 0\<close>: no byte is
  transferred. For every \<open>chunkSize < 0\<close> a \<open>Read\<close> with a buffer that is not empty panics
  on the slice expression, after the first \<open>kick\<close> and before the wrapped stream is read.
\<close>

theorem Read_slice_safe_iff_chunkSize_nonnegative:
  "(0 \<le> c \<and> c < int (length p) \<longrightarrow> slice_to p c = Inr (take (nat c) p))
   \<and> (0 \<le> c \<longrightarrow>
        fst (Read (newWatchdogReadCloser (recording_rc rd cl) c (recording_kick k) close_action) p w) =
          Inr (fst (rd (take (nat c) p) (k (under w)))))
   \<and> (c = 0 \<longrightarrow>
        calls (snd (Read (newWatchdogReadCloser (recording_rc rd cl) c (recording_kick k)
                 close_action) p w)) =
          calls w @ [KickCalled, ReadCalled [], KickCalled])
   \<and> (c = 0 \<and> reader_in_bounds rd \<longrightarrow>
        (\<exists>err. fst (Read (newWatchdogReadCloser (recording_rc rd cl) c (recording_kick k)
                 close_action) p w) = Inr (0, err)))
   \<and> (c < 0 \<and> p \<noteq> [] \<longrightarrow>
        Read (newWatchdogReadCloser (recording_rc rd cl) c (recording_kick k) close_action) p w =
          (Inl SliceBoundsOutOfRange, \<lparr>calls = calls w @ [KickCalled], under = k (under w)\<rparr>))"
proof (intro conjI impI)
  assume "0 \<le> c \<and> c < int (length p)"
  then show "slice_to p c = Inr (take (nat c) p)"
    by (simp add: slice_to_in_bounds)
next
  assume "0 \<le> c"
  then show "fst (Read (newWatchdogReadCloser (recording_rc rd cl) c (recording_kick k)
      close_action) p w) = Inr (fst (rd (take (nat c) p) (k (under w))))"
    by (simp add: Read_recording_in_range)
next
  assume "c = 0"
  then show "calls (snd (Read (newWatchdogReadCloser (recording_rc rd cl) c (recording_kick k)
      close_action) p w)) = calls w @ [KickCalled, ReadCalled [], KickCalled]"
    by (simp add: Read_recording_in_range)
next
  assume zero: "c = 0 \<and> reader_in_bounds rd"
  then have "fst (fst (rd [] (k (under w)))) = 0"
    by (simp add: reader_in_bounds_empty)
  then have "fst (rd [] (k (under w))) = (0, snd (fst (rd [] (k (under w)))))"
    by (simp add: prod_eq_iff)
  moreover have "fst (Read (newWatchdogReadCloser (recording_rc rd cl) c (recording_kick k)
      close_action) p w) = Inr (fst (rd [] (k (under w))))"
    using zero by (simp add: Read_recording_in_range)
  ultimately show "\<exists>err. fst (Read (newWatchdogReadCloser (recording_rc rd cl) c (recording_kick k)
      close_action) p w) = Inr (0, err)"
    by (intro exI [of _ "snd (fst (rd [] (k (under w))))"]) (simp only:)
next
  assume "c < 0 \<and> p \<noteq> []"
  then show "Read (newWatchdogReadCloser (recording_rc rd cl) c (recording_kick k) close_action) p w =
      (Inl SliceBoundsOutOfRange, \<lparr>calls = calls w @ [KickCalled], under = k (under w)\<rparr>)"
    by (simp add: Read_recording_negative)
qed


theorem Read_slice_safe_iff_chunkSize_nonnegative_witness:
  "slice_to [1, 2, 3 :: byte] 2 = Inr [1, 2]
   \<and> fst (Read (chunked 2) [1, 2, 3] fresh) = Inr (2, None)
   \<and> reader_in_bounds list_read
   \<and> Read (chunked 0) [1, 2, 3] fresh =
       (Inr (0, None),
        \<lparr>calls = [KickCalled, ReadCalled [], KickCalled], under = [10, 20, 30, 40]\<rparr>)
   \<and> Read (chunked (- 1)) [1, 2, 3] fresh =
       (Inl SliceBoundsOutOfRange, \<lparr>calls = [KickCalled], under = [10, 20, 30, 40]\<rparr>)"
proof -
  have two: "slice_to [1, 2, 3 :: byte] 2 = Inr [1, 2]
      \<and> fst (Read (chunked 2) [1, 2, 3] fresh) = Inr (2, None)"
    using Read_slice_safe_iff_chunkSize_nonnegative [of 2 "[1, 2, 3]" list_read list_close id
        "Some (recording_close_action id)" fresh]
    by (simp add: chunked_def fresh_def list_read_def)
  have zero_result: "fst (Read (chunked 0) [1, 2, 3] fresh) = Inr (0, None)"
    using Read_slice_safe_iff_chunkSize_nonnegative [of 0 "[1, 2, 3]" list_read list_close id
        "Some (recording_close_action id)" fresh]
    by (simp add: chunked_def fresh_def list_read_def)
  have zero_calls: "calls (snd (Read (chunked 0) [1, 2, 3] fresh)) =
      [KickCalled, ReadCalled [], KickCalled]"
    using Read_slice_safe_iff_chunkSize_nonnegative [of 0 "[1, 2, 3]" list_read list_close id
        "Some (recording_close_action id)" fresh]
    by (simp add: chunked_def fresh_def)
  have zero_under: "under (snd (Read (chunked 0) [1, 2, 3] fresh)) = [10, 20, 30, 40]"
    by (simp add: chunked_def fresh_def Read_recording_in_range list_read_def)
  have zero: "Read (chunked 0) [1, 2, 3] fresh =
      (Inr (0, None),
       \<lparr>calls = [KickCalled, ReadCalled [], KickCalled], under = [10, 20, 30, 40]\<rparr>)"
    using zero_result zero_calls zero_under
    by (cases "Read (chunked 0) [1, 2, 3] fresh") simp
  have negative: "Read (chunked (- 1)) [1, 2, 3] fresh =
      (Inl SliceBoundsOutOfRange, \<lparr>calls = [KickCalled], under = [10, 20, 30, 40]\<rparr>)"
    using Read_slice_safe_iff_chunkSize_nonnegative [of "- 1" "[1, 2, 3]" list_read list_close id
        "Some (recording_close_action id)" fresh]
    by (simp add: chunked_def fresh_def)
  show ?thesis
    using two zero negative reader_in_bounds_list_read by simp
qed

end
